theory Spec2Isabelle
  imports Main
begin

section \<open>JavaScript strings and the built-ins the models call\<close>

text \<open>
  A JavaScript string is a sequence of UTF-16 code units. A code unit is modelled by its
  number; nothing below depends on the bound \<open>65536\<close>. \<open>js\<close> writes an ASCII literal as
  a list of code units.
\<close>

type_synonym codeunit = nat
type_synonym jsstring = "codeunit list"

definition js :: "string \<Rightarrow> jsstring" where
  "js s = map of_char s"

text \<open>
  The parts of the JavaScript engine that the language standard leaves to tables or to
  the implementation are parameters of the model:
  \<^item> \<open>unicodeLower seen c rest\<close> is the lower-case mapping of the non-ASCII code unit
    \<open>c\<close> standing between \<open>seen\<close> and \<open>rest\<close> (the Unicode case tables, with their
    context rules; a surrogate is mapped together with its neighbour);
  \<^item> \<open>dateParseOther s\<close> is the time value (milliseconds since the epoch, \<open>None\<close> for
    NaN) that \<open>Date.parse\<close> gives a string \<open>s\<close> that is not of the shape
    \<^verbatim>\<open>dddd-dd-dd\<close> (\<open>d\<close> a digit): the other forms of the standard's format, and whatever
    else the implementation recognises.
\<close>

record engine =
  unicodeLower :: "jsstring \<Rightarrow> codeunit \<Rightarrow> jsstring \<Rightarrow> jsstring"
  dateParseOther :: "jsstring \<Rightarrow> int option"

definition plainEngine :: engine where
  "plainEngine = \<lparr> unicodeLower = (\<lambda>seen c rest. [c]), dateParseOther = (\<lambda>s. None) \<rparr>"

text \<open>\<open>\s\<close> of a regular expression and the characters \<open>trim\<close> removes: WhiteSpace and
  LineTerminator of ECMAScript.\<close>

definition isWhiteSpace :: "codeunit \<Rightarrow> bool" where
  "isWhiteSpace c \<longleftrightarrow>
     (9 \<le> c \<and> c \<le> 13) \<or> c = 32 \<or> c = 160 \<or> c = 5760 \<or> (8192 \<le> c \<and> c \<le> 8202) \<or>
     c = 8232 \<or> c = 8233 \<or> c = 8239 \<or> c = 8287 \<or> c = 12288 \<or> c = 65279"

definition isDigit :: "codeunit \<Rightarrow> bool" where
  "isDigit c \<longleftrightarrow> 48 \<le> c \<and> c \<le> 57"

text \<open>\<open>String.prototype.trim\<close>\<close>

definition trim :: "jsstring \<Rightarrow> jsstring" where
  "trim s = rev (dropWhile isWhiteSpace (rev (dropWhile isWhiteSpace s)))"

text \<open>\<open>String.prototype.toLowerCase\<close>: an ASCII code unit is mapped by itself (\<open>A\<close>-\<open>Z\<close>
  to \<open>a\<close>-\<open>z\<close>, any other to itself), a non-ASCII one by the engine's tables.\<close>

fun lowerFrom :: "engine \<Rightarrow> jsstring \<Rightarrow> jsstring \<Rightarrow> jsstring" where
  "lowerFrom rt seen [] = []"
| "lowerFrom rt seen (c # rest) =
     (if c < 128 then [if 65 \<le> c \<and> c \<le> 90 then c + 32 else c]
      else unicodeLower rt seen c rest)
     @ lowerFrom rt (seen @ [c]) rest"

definition toLowerCase :: "engine \<Rightarrow> jsstring \<Rightarrow> jsstring" where
  "toLowerCase rt s = lowerFrom rt [] s"

text \<open>\<open>parseInt(s, 10)\<close>: leading white space, an optional sign, then the longest run of
  decimal digits; \<open>None\<close> is NaN. The callers pass at most two digits, which a double
  holds exactly.\<close>

definition digitsValue :: "jsstring \<Rightarrow> nat" where
  "digitsValue ds = foldl (\<lambda>acc c. 10 * acc + (c - 48)) 0 ds"

definition parseInt10 :: "jsstring \<Rightarrow> int option" where
  "parseInt10 s =
     (let t = dropWhile isWhiteSpace s;
          neg = (t \<noteq> [] \<and> hd t = 45);
          u = (if t \<noteq> [] \<and> (hd t = 45 \<or> hd t = 43) then tl t else t);
          ds = takeWhile isDigit u
      in if ds = [] then None
         else Some (if neg then - int (digitsValue ds) else int (digitsValue ds)))"

text \<open>\<open>Number.prototype.toString\<close> of an integer, and \<open>padStart\<close> with a one-character
  filler.\<close>

fun digitsOf :: "nat \<Rightarrow> jsstring" where
  "digitsOf n = (if n < 10 then [48 + n] else digitsOf (n div 10) @ [48 + n mod 10])"

declare digitsOf.simps [simp del]

definition numToString :: "int \<Rightarrow> jsstring" where
  "numToString i = (if i < 0 then 45 # digitsOf (nat (- i)) else digitsOf (nat i))"

definition padStart :: "nat \<Rightarrow> codeunit \<Rightarrow> jsstring \<Rightarrow> jsstring" where
  "padStart n c s = replicate (n - length s) c @ s"

section \<open>Errors\<close>

text \<open>
  Each constructor is one \<open>Error\<close> the two models throw, named by its message:
  \<^item> \<open>FieldRequired f\<close>: \<^verbatim>\<open>Field "f" is required\<close>;
  \<^item> \<open>FieldNonEmptyArray f\<close>: \<^verbatim>\<open>Field "f" must be a non-empty array\<close>;
  \<^item> \<open>InvalidEventDate\<close>: \<^verbatim>\<open>Invalid event date\<close>;
  \<^item> \<open>InvalidEventTime\<close>: \<^verbatim>\<open>Invalid event time\<close>;
  \<^item> \<open>InvalidEmailAddress\<close>: \<^verbatim>\<open>Invalid email address\<close>;
  \<^item> \<open>ReferencedEventMissing\<close>:
    \<^verbatim>\<open>Cannot create booking: referenced event does not exist\<close>.
  \<open>failureOf\<close> gives the kind of failure the specification's taxonomy files it under.
\<close>

datatype error =
    FieldRequired string
  | FieldNonEmptyArray string
  | InvalidEventDate
  | InvalidEventTime
  | InvalidEmailAddress
  | ReferencedEventMissing

datatype failure =
    MissingField string
  | InvalidDate
  | InvalidTime
  | InvalidEmail
  | DanglingReference
  | DuplicateSlug

fun failureOf :: "error \<Rightarrow> failure" where
  "failureOf (FieldRequired f) = MissingField f"
| "failureOf (FieldNonEmptyArray f) = MissingField f"
| "failureOf InvalidEventDate = InvalidDate"
| "failureOf InvalidEventTime = InvalidTime"
| "failureOf InvalidEmailAddress = InvalidEmail"
| "failureOf ReferencedEventMissing = DanglingReference"

section \<open>normalizeTime\<close>

text \<open>
  The regular expression \<^verbatim>\<open>/^(\d{1,2})(?::?(\d{2}))\s*(AM|PM|am|pm)?$/\<close>, matched the
  way a backtracking matcher does, from the right end of the pattern to the left:
  \<^item> \<open>matchSuffix\<close> is \<^verbatim>\<open>\s*(AM|PM|am|pm)?$\<close>. The greedy \<^verbatim>\<open>\s*\<close> takes the whole
    run of white space; giving some of it back can never help, since neither the group
    nor \<open>$\<close> matches at a white-space character. The result is group 3, \<open>None\<close> when
    the group did not take part.
  \<^item> \<open>matchMinute\<close> is \<^verbatim>\<open>(?::?(\d{2}))\<close> followed by the suffix. The greedy \<^verbatim>\<open>:?\<close> takes
    a colon when there is one; without it \<^verbatim>\<open>\d{2}\<close> would have to match at the colon.
  \<^item> \<open>matchHour n\<close> is \<^verbatim>\<open>^\d{n}\<close> followed by the rest; the greedy \<^verbatim>\<open>\d{1,2}\<close> tries
    two digits first, then one.
\<close>

definition matchSuffix :: "jsstring \<Rightarrow> jsstring option option" where
  "matchSuffix s =
     (let r = dropWhile isWhiteSpace s
      in if r = js ''AM'' \<or> r = js ''PM'' \<or> r = js ''am'' \<or> r = js ''pm'' then Some (Some r)
         else if r = [] then Some None
         else None)"

definition matchMinute :: "jsstring \<Rightarrow> (jsstring option \<times> jsstring option) option" where
  "matchMinute s =
     (let r = (case s of [] \<Rightarrow> s | c # cs \<Rightarrow> if c = 58 then cs else s)
      in case r of
           a # b # rest \<Rightarrow>
             if isDigit a \<and> isDigit b
             then (case matchSuffix rest of
                     None \<Rightarrow> None
                   | Some g3 \<Rightarrow> Some (Some [a, b], g3))
             else None
         | _ \<Rightarrow> None)"

definition matchHour ::
  "nat \<Rightarrow> jsstring \<Rightarrow> (jsstring \<times> jsstring option \<times> jsstring option) option" where
  "matchHour n s =
     (if n \<le> length s \<and> list_all isDigit (take n s)
      then (case matchMinute (drop n s) of
              None \<Rightarrow> None
            | Some (g2, g3) \<Rightarrow> Some (take n s, g2, g3))
      else None)"

definition timeRegex ::
  "jsstring \<Rightarrow> (jsstring \<times> jsstring option \<times> jsstring option) option" where
  "timeRegex s = (case matchHour 2 s of Some m \<Rightarrow> Some m | None \<Rightarrow> matchHour 1 s)"

text \<open>
  \<open>normalizeTime\<close>. \<open>g1\<close>, \<open>g2\<close>, \<open>g3\<close> are \<open>match[1]\<close>, \<open>match[2]\<close>, \<open>match[3]\<close>;
  a \<open>None\<close> from \<open>parseInt10\<close> is NaN; \<open>if (meridiem)\<close> holds for a string that is
  defined and not empty.
\<close>

definition normalizeTime :: "engine \<Rightarrow> jsstring \<Rightarrow> error + jsstring" where
  "normalizeTime rt timeStr =
     (let trimmed = trim timeStr
      in case timeRegex trimmed of
           None \<Rightarrow> Inl InvalidEventTime
         | Some (g1, g2, g3) \<Rightarrow>
             (case (parseInt10 g1, parseInt10 (case g2 of Some m \<Rightarrow> m | None \<Rightarrow> js ''0'')) of
                (Some hour, Some minute) \<Rightarrow>
                  if hour < 0 \<or> hour > 23 \<or> minute < 0 \<or> minute > 59
                  then Inl InvalidEventTime
                  else
                    let meridiem = map_option (toLowerCase rt) g3;
                        hour' =
                          (case meridiem of
                             None \<Rightarrow> hour
                           | Some mer \<Rightarrow>
                               if mer = [] then hour
                               else if hour = 12 then (if mer = js ''am'' then 0 else 12)
                               else if mer = js ''pm'' then hour + 12
                               else hour);
                        hourStr = padStart 2 48 (numToString hour');
                        minuteStr = padStart 2 48 (numToString minute)
                    in Inr (hourStr @ js '':'' @ minuteStr)
              | _ \<Rightarrow> Inl InvalidEventTime))"

text \<open>\<open>failsWith r f\<close>: the result \<open>r\<close> is an error that the taxonomy files under \<open>f\<close>.\<close>

definition failsWith :: "error + 'a \<Rightarrow> failure \<Rightarrow> bool" where
  "failsWith r f = (case r of Inl e \<Rightarrow> failureOf e = f | Inr v \<Rightarrow> False)"

section \<open>generateSlug\<close>

text \<open>The character class \<^verbatim>\<open>[a-z0-9]\<close>.\<close>

definition isSlugChar :: "codeunit \<Rightarrow> bool" where
  "isSlugChar c \<longleftrightarrow> (97 \<le> c \<and> c \<le> 122) \<or> (48 \<le> c \<and> c \<le> 57)"

text \<open>
  \<^verbatim>\<open>.replace(/[^a-z0-9]+/g, '-')\<close>: the scan goes from left to right; where the greedy
  class matches, the whole run of characters outside \<^verbatim>\<open>[a-z0-9]\<close> becomes one dash and
  the scan goes on behind the run; any other character is copied.
\<close>

function replaceRuns :: "jsstring \<Rightarrow> jsstring" where
  "replaceRuns [] = []"
| "replaceRuns (c # cs) =
     (if isSlugChar c then c # replaceRuns cs
      else 45 # replaceRuns (dropWhile (\<lambda>x. \<not> isSlugChar x) cs))"
  by pat_completeness auto
termination
  by (relation "measure length") (auto simp: less_Suc_eq_le length_dropWhile_le)

text \<open>
  \<^verbatim>\<open>.replace(/^-+|-+$/g, '')\<close>: at the start of the string the first alternative
  removes the leading run of dashes; at any later position only \<^verbatim>\<open>-+$\<close> can match, and
  it does where everything from there to the end is a dash (\<open>stripTail\<close>).
\<close>

fun stripTail :: "jsstring \<Rightarrow> jsstring" where
  "stripTail [] = []"
| "stripTail (c # cs) = (if c = 45 \<and> list_all (\<lambda>x. x = 45) cs then [] else c # stripTail cs)"

definition stripDashes :: "jsstring \<Rightarrow> jsstring" where
  "stripDashes s = stripTail (dropWhile (\<lambda>x. x = 45) s)"

definition generateSlug :: "engine \<Rightarrow> jsstring \<Rightarrow> jsstring" where
  "generateSlug rt title = stripDashes (replaceRuns (trim (toLowerCase rt title)))"

text \<open>
  The specification's wording of the same function, to compare with: the maximal runs
  of characters of \<^verbatim>\<open>[a-z0-9]\<close> in the text (\<open>slugWords\<close>), joined by single dashes.
\<close>

function slugWords :: "jsstring \<Rightarrow> jsstring list" where
  "slugWords [] = []"
| "slugWords (c # cs) =
     (if isSlugChar c
      then (c # takeWhile isSlugChar cs) # slugWords (dropWhile isSlugChar cs)
      else slugWords cs)"
  by pat_completeness auto
termination
  by (relation "measure length") (auto simp: less_Suc_eq_le length_dropWhile_le)

fun joinDash :: "jsstring list \<Rightarrow> jsstring" where
  "joinDash [] = []"
| "joinDash [w] = w"
| "joinDash (w # v # ws) = w @ 45 # joinDash (v # ws)"

text \<open>
  Auxiliary notions for the proofs: what \<open>stripTail\<close> leaves of \<open>replaceRuns s\<close>, in terms
  of the words of \<open>s\<close>; a text with two adjacent dashes; a word of \<open>slugWords\<close>.
\<close>

definition afterRuns :: "jsstring \<Rightarrow> jsstring" where
  "afterRuns s =
     (case s of [] \<Rightarrow> []
      | c # cs \<Rightarrow> if isSlugChar c then joinDash (slugWords s)
                  else if slugWords s = [] then [] else 45 # joinDash (slugWords s))"

fun hasDoubleDash :: "jsstring \<Rightarrow> bool" where
  "hasDoubleDash (a # b # r) = ((a = 45 \<and> b = 45) \<or> hasDoubleDash (b # r))"
| "hasDoubleDash s = False"

definition slugWord :: "jsstring \<Rightarrow> bool" where
  "slugWord w \<longleftrightarrow> w \<noteq> [] \<and> list_all isSlugChar w"

section \<open>normalizeDate\<close>

text \<open>
  The \<open>Date\<close> object, after the language standard (ECMAScript, "Date Objects"). A time
  value is a number of milliseconds since the epoch, an integer; NaN is \<open>None\<close>.
\<close>

definition msPerDay :: int where
  "msPerDay = 86400000"

definition Day :: "int \<Rightarrow> int" where
  "Day t = t div msPerDay"

definition DaysInYear :: "int \<Rightarrow> int" where
  "DaysInYear y =
     (if y mod 4 \<noteq> 0 then 365 else if y mod 100 \<noteq> 0 then 366
      else if y mod 400 \<noteq> 0 then 365 else 366)"

definition DayFromYear :: "int \<Rightarrow> int" where
  "DayFromYear y =
     365 * (y - 1970) + (y - 1969) div 4 - (y - 1901) div 100 + (y - 1601) div 400"

text \<open>
  \<open>YearFromTime t\<close> is the largest \<open>y\<close> with \<open>TimeFromYear y \<le> t\<close>. It is computed from
  the mean length of a year (146097 days in 400 years), which gives the year or one of
  its neighbours; lemma \<open>YearFromDay_bounds\<close> shows that the result is that largest \<open>y\<close>.
\<close>

definition YearFromDay :: "int \<Rightarrow> int" where
  "YearFromDay d =
     (let y = 1970 + (400 * d) div 146097
      in if DayFromYear (y + 1) \<le> d then y + 1
         else if DayFromYear y \<le> d then y
         else y - 1)"

definition YearFromTime :: "int \<Rightarrow> int" where
  "YearFromTime t = YearFromDay (Day t)"

definition leap :: "int \<Rightarrow> int" where
  "leap y = (if DaysInYear y = 366 then 1 else 0)"

definition InLeapYear :: "int \<Rightarrow> int" where
  "InLeapYear t = leap (YearFromTime t)"

definition DayWithinYear :: "int \<Rightarrow> int" where
  "DayWithinYear t = Day t - DayFromYear (YearFromTime t)"

text \<open>\<open>monthStart l m\<close>: the day within the year on which month \<open>m\<close> (0 to 11) starts,
  \<open>l\<close> being 1 in a leap year and 0 otherwise; 12 gives the length of the year.\<close>

definition monthStart :: "int \<Rightarrow> nat \<Rightarrow> int" where
  "monthStart l m =
     [0, 31, 59 + l, 90 + l, 120 + l, 151 + l, 181 + l, 212 + l, 243 + l, 273 + l, 304 + l,
      334 + l, 365 + l] ! min m 12"

definition MonthFromTime :: "int \<Rightarrow> nat" where
  "MonthFromTime t =
     (let d = DayWithinYear t; l = InLeapYear t
      in if d < 31 then 0
         else if d < 59 + l then 1
         else if d < 90 + l then 2
         else if d < 120 + l then 3
         else if d < 151 + l then 4
         else if d < 181 + l then 5
         else if d < 212 + l then 6
         else if d < 243 + l then 7
         else if d < 273 + l then 8
         else if d < 304 + l then 9
         else if d < 334 + l then 10
         else 11)"

definition DateFromTime :: "int \<Rightarrow> int" where
  "DateFromTime t = DayWithinYear t - monthStart (InLeapYear t) (MonthFromTime t) + 1"

definition HourFromTime :: "int \<Rightarrow> int" where
  "HourFromTime t = (t div 3600000) mod 24"

definition MinFromTime :: "int \<Rightarrow> int" where
  "MinFromTime t = (t div 60000) mod 60"

definition SecFromTime :: "int \<Rightarrow> int" where
  "SecFromTime t = (t div 1000) mod 60"

definition msFromTime :: "int \<Rightarrow> int" where
  "msFromTime t = t mod 1000"

text \<open>\<open>MakeDay year month date\<close> with \<open>month\<close> from 0 to 11, and \<open>MakeDate\<close>,
  \<open>TimeClip\<close>.\<close>

definition MakeDay :: "int \<Rightarrow> nat \<Rightarrow> int \<Rightarrow> int" where
  "MakeDay year month date =
     DayFromYear year + monthStart (leap year) month + date - 1"

definition MakeDate :: "int \<Rightarrow> int \<Rightarrow> int" where
  "MakeDate day time = day * msPerDay + time"

definition TimeClip :: "int \<Rightarrow> int option" where
  "TimeClip t = (if \<bar>t\<bar> > 8640000000000000 then None else Some t)"

text \<open>
  \<open>Date.parse\<close> on a string of the shape \<^verbatim>\<open>dddd-dd-dd\<close>, as the engine of Node.js (V8)
  reads it. \<open>parseDateOnly\<close> recognises the shape and reads the three numbers. With a
  month from 1 to 12 and a day from 1 to 31 the string is a date-only string of the
  standard's format and its value is midnight UTC of \<open>MakeDay\<close> of the three numbers: a
  day that the month does not have is carried into the next month. With a month or a
  day outside these ranges the value is NaN. Every other string is left to the engine
  parameter.
\<close>

definition parseDateOnly :: "jsstring \<Rightarrow> (int \<times> nat \<times> int) option" where
  "parseDateOnly s =
     (if length s = 10 \<and> list_all isDigit (take 4 s) \<and> s ! 4 = 45 \<and>
         list_all isDigit (take 2 (drop 5 s)) \<and> s ! 7 = 45 \<and> list_all isDigit (drop 8 s)
      then Some (int (digitsValue (take 4 s)), digitsValue (take 2 (drop 5 s)),
                 int (digitsValue (drop 8 s)))
      else None)"

definition DateParse :: "engine \<Rightarrow> jsstring \<Rightarrow> int option" where
  "DateParse rt s =
     (case parseDateOnly s of
        Some (y, m, d) \<Rightarrow>
          if 1 \<le> m \<and> m \<le> 12 \<and> 1 \<le> d \<and> d \<le> 31
          then Some (MakeDate (MakeDay y (m - 1) d) 0)
          else None
      | None \<Rightarrow> dateParseOther rt s)"

text \<open>\<open>new Date(s)\<close> for a string \<open>s\<close>: the time value of the new object.\<close>

definition newDate :: "engine \<Rightarrow> jsstring \<Rightarrow> int option" where
  "newDate rt s = (case DateParse rt s of None \<Rightarrow> None | Some t \<Rightarrow> TimeClip t)"

text \<open>\<open>Date.prototype.toISOString\<close>: \<^verbatim>\<open>YYYY-MM-DDTHH:mm:ss.sssZ\<close>, the year with a sign
  and six digits when it is not between 0 and 9999.\<close>

definition isoDate :: "int \<Rightarrow> jsstring" where
  "isoDate t =
     (let y = YearFromTime t
      in (if 0 \<le> y \<and> y \<le> 9999 then padStart 4 48 (numToString y)
          else (if y < 0 then 45 else 43) # padStart 6 48 (numToString \<bar>y\<bar>))
         @ js ''-'' @ padStart 2 48 (numToString (int (MonthFromTime t) + 1))
         @ js ''-'' @ padStart 2 48 (numToString (DateFromTime t)))"

definition isoTime :: "int \<Rightarrow> jsstring" where
  "isoTime t =
     padStart 2 48 (numToString (HourFromTime t))
     @ js '':'' @ padStart 2 48 (numToString (MinFromTime t))
     @ js '':'' @ padStart 2 48 (numToString (SecFromTime t))
     @ js ''.'' @ padStart 3 48 (numToString (msFromTime t))
     @ js ''Z''"

definition toISOString :: "int \<Rightarrow> jsstring" where
  "toISOString t = isoDate t @ js ''T'' @ isoTime t"

text \<open>\<open>normalizeDate\<close>; \<^verbatim>\<open>.split('T')[0]\<close> is the text before the first \<open>T\<close>.\<close>

definition normalizeDate :: "engine \<Rightarrow> jsstring \<Rightarrow> error + jsstring" where
  "normalizeDate rt dateStr =
     (case newDate rt dateStr of
        None \<Rightarrow> Inl InvalidEventDate
      | Some t \<Rightarrow> Inr (takeWhile (\<lambda>c. c \<noteq> 84) (toISOString t)))"





section \<open>The Event document and its pre-save hook\<close>

text \<open>
  A JavaScript value, as far as the hook tells values apart: \<open>undefined\<close> (an absent
  property), a string, an array, or anything else (\<open>JOther\<close>: null, a number, a boolean,
  an object).
\<close>

datatype jsval = JUndefined | JString jsstring | JArray "jsval list" | JOther

text \<open>
  The document the hook runs on (\<open>this\<close>): \<open>props d f\<close> is \<open>this[f]\<close>, and \<open>isModified d p\<close>
  is the answer of \<open>this.isModified(p)\<close>, which the change tracking of the document
  library gives for the write in progress.
\<close>

record EventDocument =
  props :: "string \<Rightarrow> jsval"
  isModified :: "string \<Rightarrow> bool"

definition requiredStringFields :: "string list" where
  "requiredStringFields =
     [''title'', ''description'', ''overview'', ''image'', ''venue'', ''location'',
      ''date'', ''time'', ''mode'', ''audience'', ''organizer'']"

definition requiredArrayFields :: "string list" where
  "requiredArrayFields = [''agenda'', ''tags'']"

text \<open>The two tests of the loops, negated: \<^verbatim>\<open>typeof value === 'string'\<close> with a trimmed
  length other than 0, and \<^verbatim>\<open>Array.isArray(value)\<close> with a length other than 0.\<close>

definition stringFieldOk :: "jsval \<Rightarrow> bool" where
  "stringFieldOk v = (case v of JString s \<Rightarrow> length (trim s) \<noteq> 0 | _ \<Rightarrow> False)"

definition arrayFieldOk :: "jsval \<Rightarrow> bool" where
  "arrayFieldOk v = (case v of JArray xs \<Rightarrow> length xs \<noteq> 0 | _ \<Rightarrow> False)"

text \<open>A \<^verbatim>\<open>for\<close> loop over field names that throws at the first field failing its test.\<close>

fun checkFields ::
  "(jsval \<Rightarrow> bool) \<Rightarrow> (string \<Rightarrow> error) \<Rightarrow> EventDocument \<Rightarrow> string list \<Rightarrow> error option" where
  "checkFields ok err d [] = None"
| "checkFields ok err d (f # fs) =
     (if ok (props d f) then checkFields ok err d fs else Some (err f))"

text \<open>The string in a property that the first loop has found to be a string.\<close>

definition asString :: "jsval \<Rightarrow> jsstring" where
  "asString v = (case v of JString s \<Rightarrow> s | _ \<Rightarrow> [])"

definition assign :: "EventDocument \<Rightarrow> string \<Rightarrow> jsval \<Rightarrow> EventDocument" where
  "assign d f v = d\<lparr>props := (props d)(f := v)\<rparr>"

text \<open>
  \<open>eventPreSave\<close>. The result is the argument the hook passes to \<open>next\<close> (\<open>None\<close> for
  \<^verbatim>\<open>next()\<close>, \<open>Some e\<close> for \<^verbatim>\<open>next(error)\<close>) and the document as the hook leaves it: an
  assignment made before a later step throws stays made.
\<close>

definition eventPreSave :: "engine \<Rightarrow> EventDocument \<Rightarrow> error option \<times> EventDocument" where
  "eventPreSave rt d =
     (case checkFields stringFieldOk FieldRequired d requiredStringFields of
        Some e \<Rightarrow> (Some e, d)
      | None \<Rightarrow>
     (case checkFields arrayFieldOk FieldNonEmptyArray d requiredArrayFields of
        Some e \<Rightarrow> (Some e, d)
      | None \<Rightarrow>
          let d1 = (if isModified d ''title''
                    then assign d ''slug'' (JString (generateSlug rt (asString (props d ''title''))))
                    else d)
          in case normalizeDate rt (asString (props d1 ''date'')) of
               Inl e \<Rightarrow> (Some e, d1)
             | Inr date \<Rightarrow>
                 let d2 = assign d1 ''date'' (JString date)
                 in case normalizeTime rt (asString (props d2 ''time'')) of
                      Inl e \<Rightarrow> (Some e, d2)
                    | Inr time \<Rightarrow> (None, assign d2 ''time'' (JString time))))"

section \<open>The Booking document and its pre-save hook\<close>

type_synonym objectId = nat

record BookingDocument =
  eventId :: objectId
  email :: jsstring

text \<open>The Record Store: the persisted events and bookings, by identifier.\<close>

record RecordStore =
  events :: "(objectId \<times> (string \<Rightarrow> jsval)) list"
  bookings :: "(objectId \<times> BookingDocument) list"

text \<open>\<^verbatim>\<open>Event.findById(id).lean()\<close>: the persisted event with this identifier, or null.\<close>

definition findById :: "RecordStore \<Rightarrow> objectId \<Rightarrow> (string \<Rightarrow> jsval) option" where
  "findById st i = map_of (events st) i"

text \<open>
  \<^verbatim>\<open>EMAIL_REGEX = /^[^\s@]+@[^\s@]+\.[^\s@]+$/\<close> and its \<open>test\<close>. The first class takes
  the longest run of characters that are neither white space nor \<open>@\<close>, which must not be
  empty and must end at an \<open>@\<close> (a shorter run ends inside itself, not at an \<open>@\<close>). What
  follows the \<open>@\<close> reaches the end of the string within the class, and has a dot with at
  least one character on each side.
\<close>

definition isEmailChar :: "codeunit \<Rightarrow> bool" where
  "isEmailChar c \<longleftrightarrow> \<not> isWhiteSpace c \<and> c \<noteq> 64"

definition emailRegexTest :: "jsstring \<Rightarrow> bool" where
  "emailRegexTest s =
     (takeWhile isEmailChar s \<noteq> [] \<and>
      (case dropWhile isEmailChar s of
         [] \<Rightarrow> False
       | c # domain \<Rightarrow>
           c = 64 \<and> list_all isEmailChar domain \<and> 46 \<in> set (butlast (tl domain))))"

text \<open>
  \<open>bookingPreSave\<close>. The result is the argument passed to \<open>next\<close> and the queries the
  hook has sent to the Record Store, in order.
\<close>

definition bookingPreSave ::
  "RecordStore \<Rightarrow> BookingDocument \<Rightarrow> error option \<times> objectId list" where
  "bookingPreSave st b =
     (if \<not> emailRegexTest (email b) then (Some InvalidEmailAddress, [])
      else case findById st (eventId b) of
             None \<Rightarrow> (Some ReferencedEventMissing, [eventId b])
           | Some existingEvent \<Rightarrow> (None, [eventId b]))"

text \<open>\<open>rejects h f\<close>: the hook result \<open>h\<close> passes to \<open>next\<close> an error that the taxonomy files
  under \<open>f\<close>, so that the write fails.\<close>

definition rejects :: "error option \<times> 'a \<Rightarrow> failure \<Rightarrow> bool" where
  "rejects h f = (case fst h of Some e \<Rightarrow> failureOf e = f | None \<Rightarrow> False)"

text \<open>The required attributes of a document that fail their test, in the order in which
  the hook tests them.\<close>

definition offending :: "EventDocument \<Rightarrow> string list" where
  "offending d =
     filter (\<lambda>f. \<not> stringFieldOk (props d f)) requiredStringFields @
     filter (\<lambda>f. \<not> arrayFieldOk (props d f)) requiredArrayFields"

text \<open>A 24-hour clock string \<^verbatim>\<open>HH:mm\<close>: hour 00 to 23, minute 00 to 59.\<close>

definition isClock24 :: "jsstring \<Rightarrow> bool" where
  "isClock24 s \<longleftrightarrow>
     length s = 5 \<and> list_all isDigit (take 2 s) \<and> s ! 2 = 58 \<and> list_all isDigit (drop 3 s) \<and>
     digitsValue (take 2 s) \<le> 23 \<and> digitsValue (drop 3 s) \<le> 59"

section \<open>The schema, the document library and the create route\<close>

text \<open>
  The paths of \<open>EventSchema\<close>, in the order of their declaration. Every path is required.
  A String path has the \<open>trim\<close> setter or not; agenda and tags are arrays of strings.
\<close>

datatype pathKind = StringPath bool | StringArrayPath

definition EventSchema :: "(string \<times> pathKind) list" where
  "EventSchema =
     [(''title'', StringPath True), (''slug'', StringPath False),
      (''description'', StringPath True), (''overview'', StringPath True),
      (''image'', StringPath True), (''venue'', StringPath True),
      (''location'', StringPath True), (''date'', StringPath False),
      (''time'', StringPath False), (''mode'', StringPath True),
      (''audience'', StringPath True), (''agenda'', StringArrayPath),
      (''organizer'', StringPath True), (''tags'', StringArrayPath)]"

text \<open>
  A document of the library (Mongoose) with its change tracking: the values it holds now,
  and the values the last write stored (\<open>None\<close> for a new record). \<open>this.isModified(p)\<close>
  holds for a new record when \<open>p\<close> has been given a value (one other than its default,
  the empty array of an array path), and for a stored record when the value of \<open>p\<close> is
  no longer the stored one.
\<close>

record TrackedDocument =
  current :: "string \<Rightarrow> jsval"
  stored :: "(string \<Rightarrow> jsval) option"

definition pathDefault :: "string \<Rightarrow> jsval" where
  "pathDefault p = (case map_of EventSchema p of Some StringArrayPath \<Rightarrow> JArray [] | _ \<Rightarrow> JUndefined)"

definition modified :: "TrackedDocument \<Rightarrow> string \<Rightarrow> bool" where
  "modified t p =
     (case stored t of None \<Rightarrow> current t p \<noteq> pathDefault p | Some old \<Rightarrow> current t p \<noteq> old p)"

definition toDocument :: "TrackedDocument \<Rightarrow> EventDocument" where
  "toDocument t = \<lparr> props = current t, isModified = modified t \<rparr>"

text \<open>
  \<open>new Event(obj)\<close> for an object whose values are strings. A String path takes the
  string, trimmed when the path has the setter, and stays undefined when the object has
  no such key; an array path takes the string as a one-element array, and the empty
  array when the object has no such key. Keys that are no paths of the schema are
  dropped.
\<close>

definition castPath :: "pathKind \<Rightarrow> jsstring option \<Rightarrow> jsval" where
  "castPath k v =
     (case k of
        StringPath t \<Rightarrow> (case v of None \<Rightarrow> JUndefined | Some s \<Rightarrow> JString (if t then trim s else s))
      | StringArrayPath \<Rightarrow> (case v of None \<Rightarrow> JArray [] | Some s \<Rightarrow> JArray [JString s]))"

definition newDocument :: "(string \<rightharpoonup> jsstring) \<Rightarrow> TrackedDocument" where
  "newDocument obj =
     \<lparr> current = (\<lambda>p. case map_of EventSchema p of None \<Rightarrow> JUndefined | Some k \<Rightarrow> castPath k (obj p)),
       stored = None \<rparr>"

text \<open>
  The validation of the library, which \<open>save\<close> runs before the pre-save hooks of the
  schema: the paths whose \<open>required\<close> validator fails. A String path fails unless its
  value is a string other than the empty one; an array path passes with any array.
\<close>

definition requiredFails :: "pathKind \<Rightarrow> jsval \<Rightarrow> bool" where
  "requiredFails k v =
     (case k of
        StringPath t \<Rightarrow> (case v of JString s \<Rightarrow> s = [] | _ \<Rightarrow> True)
      | StringArrayPath \<Rightarrow> (case v of JArray xs \<Rightarrow> False | _ \<Rightarrow> True))"

definition validate :: "TrackedDocument \<Rightarrow> string list" where
  "validate t = map fst (filter (\<lambda>(p, k). requiredFails k (current t p)) EventSchema)"

text \<open>
  What ends a write: the library's ValidationError with the failing paths, an error the
  hook passed to \<open>next\<close>, or the duplicate-key error of the unique index on a path.
\<close>

datatype saveError = ValidationFailed "string list" | HookFailed error | DuplicateKey string

text \<open>
  \<open>preSave\<close>: validation, then \<open>eventPreSave\<close> on the document; the assignments of the hook
  stay in the document. \<open>save\<close> is \<open>document.save()\<close> seen from the document, for a write
  that the store accepts: after it the stored values are the current ones.
\<close>

definition preSave :: "engine \<Rightarrow> TrackedDocument \<Rightarrow> saveError option \<times> TrackedDocument" where
  "preSave rt t =
     (case validate t of
        p # ps \<Rightarrow> (Some (ValidationFailed (p # ps)), t)
      | [] \<Rightarrow>
          (case eventPreSave rt (toDocument t) of
             (e, d) \<Rightarrow> (map_option HookFailed e, t\<lparr>current := props d\<rparr>)))"

definition save :: "engine \<Rightarrow> TrackedDocument \<Rightarrow> saveError option \<times> TrackedDocument" where
  "save rt t =
     (case preSave rt t of
        (Some e, t') \<Rightarrow> (Some e, t')
      | (None, t') \<Rightarrow> (None, t'\<lparr>stored := Some (current t')\<rparr>))"

text \<open>
  \<open>Event.create(obj)\<close>: a new document is validated and passed through the hook, then
  inserted under the new identifier \<open>i\<close>, unless a stored event has its slug (the unique
  index). The result is the outcome and the store afterwards.
\<close>

definition EventCreate ::
  "engine \<Rightarrow> RecordStore \<Rightarrow> objectId \<Rightarrow> (string \<rightharpoonup> jsstring) \<Rightarrow>
     (saveError + (string \<Rightarrow> jsval)) \<times> RecordStore" where
  "EventCreate rt st i obj =
     (case preSave rt (newDocument obj) of
        (Some e, t) \<Rightarrow> (Inl e, st)
      | (None, t) \<Rightarrow>
          if current t ''slug'' \<in> set (map (\<lambda>(j, e). e ''slug'') (events st))
          then (Inl (DuplicateKey ''slug''), st)
          else (Inr (current t), st\<lparr>events := events st @ [(i, current t)]\<rparr>))"

text \<open>
  The route handler \<open>POST\<close>, on a form whose entries are text: \<open>Object.fromEntries\<close> keeps
  the last value of a key, and cannot throw on the entries of a form. The response is
  201 with the created event, or 500 with the error.
\<close>

type_synonym formData = "(string \<times> jsstring) list"

definition fromEntries :: "formData \<Rightarrow> (string \<rightharpoonup> jsstring)" where
  "fromEntries es = map_of (rev es)"

datatype response = Created "string \<Rightarrow> jsval" | CreationFailed saveError

definition POST :: "engine \<Rightarrow> RecordStore \<Rightarrow> objectId \<Rightarrow> formData \<Rightarrow> response \<times> RecordStore" where
  "POST rt st i form =
     (case EventCreate rt st i (fromEntries form) of
        (Inl e, st') \<Rightarrow> (CreationFailed e, st')
      | (Inr createdEvent, st') \<Rightarrow> (Created createdEvent, st'))"

section \<open>Example documents\<close>

text \<open>An event candidate with every required attribute present, given its time and its
  tags; the library reports every path of it as modified, as for a new record.\<close>

definition sampleProps :: "jsstring \<Rightarrow> jsval \<Rightarrow> string \<Rightarrow> jsval" where
  "sampleProps time tags =
     (\<lambda>f. JUndefined)
       (''title'' := JString (js ''My Dev Talk!!''),
        ''description'' := JString (js ''A talk''),
        ''overview'' := JString (js ''Overview''),
        ''image'' := JString (js ''/img.png''),
        ''venue'' := JString (js ''Hall 1''),
        ''location'' := JString (js ''Jakarta''),
        ''date'' := JString (js ''2025-01-31''),
        ''time'' := JString time,
        ''mode'' := JString (js ''offline''),
        ''audience'' := JString (js ''developers''),
        ''organizer'' := JString (js ''DevEvent''),
        ''agenda'' := JArray [JString (js ''Opening'')],
        ''tags'' := tags)"

definition sampleEvent :: "jsstring \<Rightarrow> jsval \<Rightarrow> EventDocument" where
  "sampleEvent time tags = \<lparr> props = sampleProps time tags, isModified = (\<lambda>p. True) \<rparr>"

text \<open>The entries of a form for the same event, given its slug, its title and its time.\<close>

definition sampleForm :: "string \<Rightarrow> string \<Rightarrow> string \<Rightarrow> formData" where
  "sampleForm slug title time =
     [(''title'', js title), (''slug'', js slug), (''description'', js ''A talk''),
      (''overview'', js ''Overview''), (''image'', js ''/img.png''), (''venue'', js ''Hall 1''),
      (''location'', js ''Jakarta''), (''date'', js ''2025-01-31''), (''time'', js time),
      (''mode'', js ''offline''), (''audience'', js ''developers''),
      (''organizer'', js ''DevEvent''), (''agenda'', js ''Opening''), (''tags'', js ''dev'')]"

text \<open>The same event as a new record whose slug the client has chosen, and as a stored
  record that has not been touched since, with a slug that is not the one of its title.\<close>

definition newTalk :: TrackedDocument where
  "newTalk =
     \<lparr> current = (sampleProps (js ''2:30 PM'') (JArray [JString (js ''dev'')]))
                   (''slug'' := JString (js ''custom'')),
       stored = None \<rparr>"

definition storedTalk :: TrackedDocument where
  "storedTalk =
     \<lparr> current = (sampleProps (js ''14:30'') (JArray [JString (js ''dev'')]))
                   (''slug'' := JString (js ''legacy'')),
       stored = Some ((sampleProps (js ''14:30'') (JArray [JString (js ''dev'')]))
                   (''slug'' := JString (js ''legacy''))) \<rparr>"

section \<open>Properties of normalizeTime\<close>

lemmas time_eval =
  normalizeTime_def trim_def timeRegex_def matchHour_def matchMinute_def matchSuffix_def
  parseInt10_def digitsValue_def js_def isDigit_def isWhiteSpace_def toLowerCase_def
  numToString_def padStart_def digitsOf.simps failsWith_def

text \<open>
  Claim C3. The Time Normalizer maps "2:30 PM" to "14:30", "14:30" to "14:30",
  "12:00 AM" to "00:00" and "12:00 PM" to "12:00", and it fails with InvalidTime on
  "25:00"; this holds whatever the engine's tables are.
\<close>

theorem normalizeTime_examples:
  "normalizeTime rt (js ''2:30 PM'') = Inr (js ''14:30'') \<and>
   normalizeTime rt (js ''14:30'') = Inr (js ''14:30'') \<and>
   normalizeTime rt (js ''12:00 AM'') = Inr (js ''00:00'') \<and>
   normalizeTime rt (js ''12:00 PM'') = Inr (js ''12:00'') \<and>
   failsWith (normalizeTime rt (js ''25:00'')) InvalidTime"
  by (simp add: time_eval)

text \<open>
  Claim C1. Every accepted time string should give a valid 24-hour clock string. The code
  does not: "13:00 PM" passes the range check with hour 13 and then gets 12 added, so the
  result is "25:00", which is no 24-hour clock string.
\<close>

theorem normalizeTime_13pm:
  "normalizeTime rt (js ''13:00 PM'') = Inr (js ''25:00'') \<and> \<not> isClock24 (js ''25:00'')"
  by (simp add: time_eval isClock24_def)

text \<open>
  Claim C2, as stated, fails: "00:00" followed by a meridiem suffix is matched by the
  pattern, and "00:00 AM" is accepted.
\<close>

theorem normalizeTime_midnight_AM_accepted:
  "normalizeTime plainEngine (js ''00:00 AM'') = Inr (js ''00:00'')"
  by (simp add: time_eval)

lemma dropWhile_all_append:
  "list_all P ws \<Longrightarrow> dropWhile P (ws @ s) = dropWhile P s"
  by (induction ws) auto

lemma trim_unchanged:
  assumes "s \<noteq> []" "\<not> isWhiteSpace (hd s)" "\<not> isWhiteSpace (last s)"
  shows "trim s = s"
proof -
  from assms have "dropWhile isWhiteSpace s = s" by (cases s) auto
  moreover from assms have "dropWhile isWhiteSpace (rev s) = rev s"
    by (cases "rev s") (auto simp: hd_rev)
  ultimately show ?thesis by (simp add: trim_def)
qed

lemma timeRegex_midnight:
  assumes ws: "list_all isWhiteSpace ws"
    and suf: "suf \<noteq> []" "\<not> isWhiteSpace (hd suf)" "\<not> isWhiteSpace (last suf)"
  shows "timeRegex (trim (js ''00:00'' @ ws @ suf)) =
     (case matchSuffix suf of None \<Rightarrow> None | Some g3 \<Rightarrow> Some (js ''00'', Some (js ''00''), g3))"
proof -
  have t: "trim (js ''00:00'' @ ws @ suf) = js ''00:00'' @ ws @ suf"
    using suf by (intro trim_unchanged) (auto simp: js_def isWhiteSpace_def)
  have m: "matchSuffix (ws @ suf) = matchSuffix suf"
    using ws by (simp add: matchSuffix_def dropWhile_all_append)
  show ?thesis
    unfolding t by (simp add: timeRegex_def matchHour_def matchMinute_def m js_def isDigit_def split: option.splits)
qed

lemma normalizeTime_midnight_suffix:
  assumes ws: "list_all isWhiteSpace ws"
    and suf: "suf \<noteq> []" "\<not> isWhiteSpace (hd suf)" "\<not> isWhiteSpace (last suf)"
  shows "normalizeTime rt (js ''00:00'' @ ws @ suf) =
     (case matchSuffix suf of
        None \<Rightarrow> Inl InvalidEventTime
      | Some None \<Rightarrow> Inr (js ''00:00'')
      | Some (Some g) \<Rightarrow>
          if toLowerCase rt g = js ''pm'' then Inr (js ''12:00'') else Inr (js ''00:00''))"
proof -
  note r = timeRegex_midnight[OF assms]
  show ?thesis
  proof (cases "matchSuffix suf")
    case None
    with r show ?thesis by (simp add: normalizeTime_def)
  next
    case (Some g3)
    then have g3: "g3 = None \<or> g3 = Some (js ''AM'') \<or> g3 = Some (js ''PM'') \<or> g3 = Some (js ''am'') \<or> g3 = Some (js ''pm'')"
      by (auto simp: matchSuffix_def Let_def split: if_splits)
    have tr: "timeRegex (trim (js ''00:00'' @ ws @ suf)) = Some (js ''00'', Some (js ''00''), g3)"
      using r Some by simp
    from g3 show ?thesis unfolding normalizeTime_def Let_def tr Some
      by (elim disjE) (simp_all add: parseInt10_def digitsValue_def js_def isDigit_def isWhiteSpace_def
          toLowerCase_def numToString_def padStart_def digitsOf.simps)
  qed
qed

text \<open>
  Claim C2, amended. "00:00" followed by optional white space and one of the suffixes
  AM, am, PM, pm is accepted: the result is "00:00" for AM and am, and "12:00" for PM and
  pm. With a suffix in mixed case (Am, aM, Pm, pM), which the pattern does not match, the
  Time Normalizer fails with InvalidTime.
\<close>

theorem normalizeTime_midnight_meridiem:
  assumes "list_all isWhiteSpace ws"
  shows "normalizeTime rt (js ''00:00'' @ ws @ js ''AM'') = Inr (js ''00:00'') \<and>
         normalizeTime rt (js ''00:00'' @ ws @ js ''am'') = Inr (js ''00:00'') \<and>
         normalizeTime rt (js ''00:00'' @ ws @ js ''PM'') = Inr (js ''12:00'') \<and>
         normalizeTime rt (js ''00:00'' @ ws @ js ''pm'') = Inr (js ''12:00'') \<and>
         failsWith (normalizeTime rt (js ''00:00'' @ ws @ js ''Am'')) InvalidTime \<and>
         failsWith (normalizeTime rt (js ''00:00'' @ ws @ js ''aM'')) InvalidTime \<and>
         failsWith (normalizeTime rt (js ''00:00'' @ ws @ js ''Pm'')) InvalidTime \<and>
         failsWith (normalizeTime rt (js ''00:00'' @ ws @ js ''pM'')) InvalidTime"
proof -
  have "normalizeTime rt (js ''00:00'' @ ws @ js ''AM'') = Inr (js ''00:00'')"
    by (subst normalizeTime_midnight_suffix[OF assms])
       (simp_all add: js_def isWhiteSpace_def matchSuffix_def toLowerCase_def)
  moreover have "normalizeTime rt (js ''00:00'' @ ws @ js ''am'') = Inr (js ''00:00'')"
    by (subst normalizeTime_midnight_suffix[OF assms])
       (simp_all add: js_def isWhiteSpace_def matchSuffix_def toLowerCase_def)
  moreover have "normalizeTime rt (js ''00:00'' @ ws @ js ''PM'') = Inr (js ''12:00'')"
    by (subst normalizeTime_midnight_suffix[OF assms])
       (simp_all add: js_def isWhiteSpace_def matchSuffix_def toLowerCase_def)
  moreover have "normalizeTime rt (js ''00:00'' @ ws @ js ''pm'') = Inr (js ''12:00'')"
    by (subst normalizeTime_midnight_suffix[OF assms])
       (simp_all add: js_def isWhiteSpace_def matchSuffix_def toLowerCase_def)
  moreover have "failsWith (normalizeTime rt (js ''00:00'' @ ws @ js ''Am'')) InvalidTime"
    by (subst normalizeTime_midnight_suffix[OF assms])
       (simp_all add: js_def isWhiteSpace_def matchSuffix_def failsWith_def)
  moreover have "failsWith (normalizeTime rt (js ''00:00'' @ ws @ js ''aM'')) InvalidTime"
    by (subst normalizeTime_midnight_suffix[OF assms])
       (simp_all add: js_def isWhiteSpace_def matchSuffix_def failsWith_def)
  moreover have "failsWith (normalizeTime rt (js ''00:00'' @ ws @ js ''Pm'')) InvalidTime"
    by (subst normalizeTime_midnight_suffix[OF assms])
       (simp_all add: js_def isWhiteSpace_def matchSuffix_def failsWith_def)
  moreover have "failsWith (normalizeTime rt (js ''00:00'' @ ws @ js ''pM'')) InvalidTime"
    by (subst normalizeTime_midnight_suffix[OF assms])
       (simp_all add: js_def isWhiteSpace_def matchSuffix_def failsWith_def)
  ultimately show ?thesis by (intro conjI)
qed

text \<open>The theorem at two spaces before the suffix.\<close>

theorem normalizeTime_midnight_meridiem_witness:
  "normalizeTime plainEngine (js ''00:00  PM'') = Inr (js ''12:00'') \<and>
   normalizeTime plainEngine (js ''00:00  am'') = Inr (js ''00:00'') \<and>
   failsWith (normalizeTime plainEngine (js ''00:00  Pm'')) InvalidTime"
proof -
  have ws: "list_all isWhiteSpace (js ''  '')" by (simp add: js_def isWhiteSpace_def)
  show ?thesis
    using normalizeTime_midnight_meridiem[OF ws, of plainEngine] by (simp add: js_def)
qed

section \<open>Properties of generateSlug\<close>

lemma slug_not_dash: "isSlugChar c \<Longrightarrow> c \<noteq> 45"
  by (auto simp: isSlugChar_def)

lemma slug_not_white: "isWhiteSpace c \<Longrightarrow> \<not> isSlugChar c"
  by (auto simp: isSlugChar_def isWhiteSpace_def)

lemma slugWords_skip: "slugWords (dropWhile (\<lambda>x. \<not> isSlugChar x) s) = slugWords s"
  by (induction s) auto

lemma slugWords_append_outside:
  "list_all (\<lambda>x. \<not> isSlugChar x) b \<Longrightarrow> slugWords (a @ b) = slugWords a"
proof (induction a rule: slugWords.induct)
  case 1
  then show ?case by (induction b) auto
next
  case (2 c cs)
  show ?case
  proof (cases "isSlugChar c")
    case True
    have tw: "takeWhile isSlugChar (cs @ b) = takeWhile isSlugChar cs"
      using 2(3) by (induction cs) (auto, (cases b; auto))
    have dw: "dropWhile isSlugChar (cs @ b) = dropWhile isSlugChar cs @ b"
      using 2(3) by (induction cs) (auto, (cases b; auto))
    show ?thesis using True 2 by (simp add: tw dw)
  next
    case False
    then show ?thesis using 2 by simp
  qed
qed

lemma slugWords_trim: "slugWords (trim s) = slugWords s"
proof -
  let ?d = "dropWhile isWhiteSpace s"
  let ?b = "rev (takeWhile isWhiteSpace (rev ?d))"
  have split: "?d = trim s @ ?b"
  proof -
    have "rev (takeWhile isWhiteSpace (rev ?d) @ dropWhile isWhiteSpace (rev ?d)) = rev (rev ?d)"
      by (simp only: takeWhile_dropWhile_id)
    then show ?thesis by (simp only: rev_append rev_rev_ident trim_def)
  qed
  have "list_all (\<lambda>x. \<not> isSlugChar x) ?b"
    by (auto simp: list_all_iff slug_not_white dest: set_takeWhileD)
  then have "slugWords (trim s @ ?b) = slugWords (trim s)" by (rule slugWords_append_outside)
  with split have "slugWords ?d = slugWords (trim s)" by simp
  moreover have "slugWords ?d = slugWords s"
    by (induction s) (auto simp: slug_not_white)
  ultimately show ?thesis by simp
qed


lemma joinDash_Cons_word: "w \<noteq> [] \<Longrightarrow> joinDash ((c # w) # ws) = c # joinDash (w # ws)"
  by (cases ws) auto

lemma joinDash_single_Cons: "joinDash ([c] # ws) = (if ws = [] then [c] else c # 45 # joinDash ws)"
  by (cases ws) auto

lemma afterRuns_slug:
  assumes "isSlugChar c"
  shows "joinDash (slugWords (c # cs)) = c # afterRuns cs"
proof (cases cs)
  case Nil
  then show ?thesis using assms by (simp add: afterRuns_def)
next
  case (Cons d ds)
  show ?thesis
  proof (cases "isSlugChar d")
    case True
    have "slugWords (c # cs) = (c # d # takeWhile isSlugChar ds) # slugWords (dropWhile isSlugChar ds)"
      using assms True Cons by simp
    moreover have "slugWords cs = (d # takeWhile isSlugChar ds) # slugWords (dropWhile isSlugChar ds)"
      using True Cons by simp
    moreover have "afterRuns cs = joinDash (slugWords cs)"
      using True Cons by (simp add: afterRuns_def)
    ultimately show ?thesis by (simp add: joinDash_Cons_word)
  next
    case False
    have "slugWords (c # cs) = [c] # slugWords cs"
      using assms False Cons by simp
    moreover have "afterRuns cs = (if slugWords cs = [] then [] else 45 # joinDash (slugWords cs))"
      using False Cons by (simp add: afterRuns_def)
    ultimately show ?thesis by (simp add: joinDash_single_Cons)
  qed
qed

lemma dropWhile_outside_start:
  "dropWhile (\<lambda>x. \<not> isSlugChar x) cs = d # ds \<Longrightarrow> isSlugChar d"
  using hd_dropWhile[of "\<lambda>x. \<not> isSlugChar x" cs] by auto

lemma stripTail_replaceRuns: "stripTail (replaceRuns s) = afterRuns s"
proof (induction s rule: replaceRuns.induct)
  case 1
  then show ?case by (simp add: afterRuns_def)
next
  case (2 c cs)
  show ?case
  proof (cases "isSlugChar c")
    case True
    then have "stripTail (replaceRuns (c # cs)) = c # stripTail (replaceRuns cs)"
      by (simp add: slug_not_dash)
    also have "\<dots> = c # afterRuns cs" using 2(1)[OF True] by simp
    also have "\<dots> = joinDash (slugWords (c # cs))" using afterRuns_slug[OF True] by simp
    finally show ?thesis using True by (simp add: afterRuns_def)
  next
    case False
    let ?s' = "dropWhile (\<lambda>x. \<not> isSlugChar x) cs"
    have w: "slugWords (c # cs) = slugWords ?s'" using False by (simp add: slugWords_skip)
    have r: "replaceRuns (c # cs) = 45 # replaceRuns ?s'" using False by simp
    show ?thesis
    proof (cases ?s')
      case Nil
      have "replaceRuns (c # cs) = [45]" unfolding r Nil by simp
      then have "stripTail (replaceRuns (c # cs)) = []" by simp
      moreover have "slugWords (c # cs) = []" unfolding w Nil by simp
      then have "afterRuns (c # cs) = []"
        using False by (simp add: afterRuns_def del: slugWords.simps)
      ultimately show ?thesis by simp
    next
      case (Cons d ds)
      then have d: "isSlugChar d" by (rule dropWhile_outside_start)
      then have nd: "d \<noteq> 45" by (rule slug_not_dash)
      have "replaceRuns ?s' = d # replaceRuns ds" using Cons d by simp
      then have "stripTail (replaceRuns (c # cs)) = 45 # stripTail (replaceRuns ?s')"
        using r nd by simp
      also have "\<dots> = 45 # afterRuns ?s'" using 2(2)[OF False] by simp
      also have "\<dots> = 45 # joinDash (slugWords ?s')" using Cons d by (simp add: afterRuns_def)
      also have "\<dots> = afterRuns (c # cs)"
      proof -
        have "slugWords ?s' \<noteq> []" unfolding Cons using d by simp
        then show ?thesis using False by (simp add: afterRuns_def w del: slugWords.simps)
      qed
      finally show ?thesis .
    qed
  qed
qed

lemma stripDashes_replaceRuns: "stripDashes (replaceRuns s) = joinDash (slugWords s)"
proof (cases s)
  case Nil
  then show ?thesis by (simp add: stripDashes_def)
next
  case (Cons c cs)
  show ?thesis
  proof (cases "isSlugChar c")
    case True
    then have "c \<noteq> 45" by (rule slug_not_dash)
    then have "dropWhile (\<lambda>x. x = 45) (replaceRuns s) = replaceRuns s"
      using Cons True by simp
    then have "stripDashes (replaceRuns s) = stripTail (replaceRuns s)"
      by (simp add: stripDashes_def)
    also have "\<dots> = afterRuns s" by (rule stripTail_replaceRuns)
    also have "\<dots> = joinDash (slugWords s)"
      using Cons True by (simp add: afterRuns_def del: slugWords.simps)
    finally show ?thesis .
  next
    case False
    let ?s' = "dropWhile (\<lambda>x. \<not> isSlugChar x) cs"
    have w: "slugWords s = slugWords ?s'" using False Cons by (simp add: slugWords_skip)
    have r: "replaceRuns s = 45 # replaceRuns ?s'" using False Cons by simp
    show ?thesis
    proof (cases ?s')
      case Nil
      have "replaceRuns s = [45]" unfolding r Nil by simp
      then have "stripDashes (replaceRuns s) = []" by (simp add: stripDashes_def)
      moreover have "slugWords s = []" unfolding w Nil by simp
      ultimately show ?thesis by simp
    next
      case c2: (Cons d ds)
      then have d: "isSlugChar d" by (rule dropWhile_outside_start)
      then have nd: "d \<noteq> 45" by (rule slug_not_dash)
      have "replaceRuns ?s' = d # replaceRuns ds" using c2 d by simp
      then have "dropWhile (\<lambda>x. x = 45) (replaceRuns s) = replaceRuns ?s'"
        using r nd by simp
      then have "stripDashes (replaceRuns s) = stripTail (replaceRuns ?s')"
        by (simp add: stripDashes_def)
      also have "\<dots> = afterRuns ?s'" by (rule stripTail_replaceRuns)
      also have "\<dots> = joinDash (slugWords ?s')" using c2 d by (simp add: afterRuns_def)
      finally show ?thesis using w by simp
    qed
  qed
qed

lemma generateSlug_words: "generateSlug rt title = joinDash (slugWords (toLowerCase rt title))"
  by (simp add: generateSlug_def stripDashes_replaceRuns slugWords_trim)


lemma hasDoubleDash_iff: "hasDoubleDash s \<longleftrightarrow> (\<exists>u v. s = u @ js ''--'' @ v)"
proof (induction s rule: hasDoubleDash.induct)
  case (1 a b r)
  have "(\<exists>u v. a # b # r = u @ 45 # 45 # v) \<longleftrightarrow>
        (a = 45 \<and> b = 45) \<or> (\<exists>u v. b # r = u @ 45 # 45 # v)"
    by (auto simp: Cons_eq_append_conv)
  with 1 show ?case by (simp add: js_def)
qed (simp_all add: js_def)

lemma slugWords_words: "w \<in> set (slugWords s) \<Longrightarrow> w \<noteq> [] \<and> list_all isSlugChar w"
proof (induction s rule: slugWords.induct)
  case 1
  then show ?case by simp
next
  case (2 c cs)
  then show ?case
    by (cases "isSlugChar c") (auto simp: list_all_iff dest: set_takeWhileD)
qed

lemma joinDash_chars:
  "list_all slugWord ws \<Longrightarrow> c \<in> set (joinDash ws) \<Longrightarrow> isSlugChar c \<or> c = 45"
  by (induction ws rule: joinDash.induct) (auto simp: slugWord_def list_all_iff)

lemma joinDash_ends:
  "list_all slugWord ws \<Longrightarrow> ws \<noteq> [] \<Longrightarrow>
     joinDash ws \<noteq> [] \<and> isSlugChar (hd (joinDash ws)) \<and> isSlugChar (last (joinDash ws))"
proof (induction ws rule: joinDash.induct)
  case 1
  then show ?case by simp
next
  case (2 w)
  then show ?case by (cases w) (auto simp: slugWord_def list_all_iff)
next
  case (3 w v ws)
  then show ?case by (cases w) (auto simp: slugWord_def list_all_iff)
qed

lemma word_dash_no_double:
  "list_all isSlugChar w \<Longrightarrow> w \<noteq> [] \<Longrightarrow> t \<noteq> [] \<Longrightarrow> hd t \<noteq> 45 \<Longrightarrow> \<not> hasDoubleDash t \<Longrightarrow>
     \<not> hasDoubleDash (w @ 45 # t)"
proof (induction w)
  case Nil
  then show ?case by simp
next
  case (Cons c w)
  then have c: "c \<noteq> 45" by (simp add: slug_not_dash)
  show ?case
  proof (cases w)
    case Nil
    then show ?thesis using Cons.prems c by (cases t) auto
  next
    case (Cons d w')
    then show ?thesis using Cons.prems Cons.IH c by auto
  qed
qed

lemma word_no_double: "list_all isSlugChar w \<Longrightarrow> \<not> hasDoubleDash w"
  by (induction w rule: hasDoubleDash.induct) (auto simp: slug_not_dash)

lemma joinDash_no_double: "list_all slugWord ws \<Longrightarrow> \<not> hasDoubleDash (joinDash ws)"
proof (induction ws rule: joinDash.induct)
  case 1
  then show ?case by simp
next
  case (2 w)
  then show ?case by (simp add: slugWord_def word_no_double)
next
  case (3 w v ws)
  then have tl: "list_all slugWord (v # ws)" by simp
  from joinDash_ends[OF tl] have e: "joinDash (v # ws) \<noteq> []" "hd (joinDash (v # ws)) \<noteq> 45"
    by (auto simp: slug_not_dash)
  from 3 tl have "\<not> hasDoubleDash (joinDash (v # ws))" by simp
  with e 3(2) show ?case
    by (simp add: slugWord_def word_dash_no_double del: hasDoubleDash.simps)
qed

lemma slugWords_all: "list_all slugWord (slugWords s)"
  using slugWords_words by (auto simp: list_all_iff slugWord_def)

text \<open>
  Claim C4. For every title, the slug contains only characters of \<^verbatim>\<open>[a-z0-9]\<close> and dashes,
  neither starts nor ends with a dash, and has no two adjacent dashes: it is the maximal
  runs of \<^verbatim>\<open>[a-z0-9]\<close> characters of the lower-cased title, joined by single dashes. The
  function is total (its result is a string, never an error), and the empty title gives
  the empty slug.
\<close>

theorem generateSlug_shape:
  "(\<forall>c \<in> set (generateSlug rt title). isSlugChar c \<or> c = 45) \<and>
   (generateSlug rt title \<noteq> [] \<longrightarrow>
      hd (generateSlug rt title) \<noteq> 45 \<and> last (generateSlug rt title) \<noteq> 45) \<and>
   (\<nexists>u v. generateSlug rt title = u @ js ''--'' @ v) \<and>
   generateSlug rt title = joinDash (slugWords (toLowerCase rt title)) \<and>
   generateSlug rt [] = []"
proof -
  let ?ws = "slugWords (toLowerCase rt title)"
  have eq: "generateSlug rt title = joinDash ?ws" by (rule generateSlug_words)
  have ws: "list_all slugWord ?ws" by (rule slugWords_all)
  have chars: "\<forall>c \<in> set (generateSlug rt title). isSlugChar c \<or> c = 45"
    unfolding eq using joinDash_chars[OF ws] by blast
  have ends: "generateSlug rt title \<noteq> [] \<longrightarrow>
      hd (generateSlug rt title) \<noteq> 45 \<and> last (generateSlug rt title) \<noteq> 45"
  proof
    assume "generateSlug rt title \<noteq> []"
    then have "?ws \<noteq> []" unfolding eq by auto
    from joinDash_ends[OF ws this] show "hd (generateSlug rt title) \<noteq> 45 \<and> last (generateSlug rt title) \<noteq> 45"
      unfolding eq by (auto simp: slug_not_dash)
  qed
  have nodd: "\<nexists>u v. generateSlug rt title = u @ js ''--'' @ v"
    unfolding eq using joinDash_no_double[OF ws] by (simp add: hasDoubleDash_iff)
  have empty: "generateSlug rt [] = []"
    by (simp add: generateSlug_def toLowerCase_def trim_def stripDashes_def)
  from chars ends nodd eq empty show ?thesis by blast
qed

lemmas slug_eval =
  generateSlug_def toLowerCase_def trim_def stripDashes_def js_def isSlugChar_def
  isWhiteSpace_def

text \<open>The theorem at the title "My Dev Talk!!", whose slug is "my-dev-talk".\<close>

theorem generateSlug_shape_witness:
  "generateSlug plainEngine (js ''My Dev Talk!!'') = js ''my-dev-talk'' \<and>
   hd (generateSlug plainEngine (js ''My Dev Talk!!'')) \<noteq> 45 \<and>
   last (generateSlug plainEngine (js ''My Dev Talk!!'')) \<noteq> 45 \<and>
   joinDash (slugWords (toLowerCase plainEngine (js ''My Dev Talk!!''))) = js ''my-dev-talk''"
proof -
  note shape = generateSlug_shape[of plainEngine "js ''My Dev Talk!!''"]
  have v: "generateSlug plainEngine (js ''My Dev Talk!!'') = js ''my-dev-talk''"
    by (simp add: slug_eval)
  then have ne: "generateSlug plainEngine (js ''My Dev Talk!!'') \<noteq> []"
    by (simp add: js_def)
  from shape ne have ends: "hd (generateSlug plainEngine (js ''My Dev Talk!!'')) \<noteq> 45 \<and>
      last (generateSlug plainEngine (js ''My Dev Talk!!'')) \<noteq> 45"
    by blast
  from shape have e: "generateSlug plainEngine (js ''My Dev Talk!!'') =
      joinDash (slugWords (toLowerCase plainEngine (js ''My Dev Talk!!'')))"
    by blast
  have j: "joinDash (slugWords (toLowerCase plainEngine (js ''My Dev Talk!!''))) = js ''my-dev-talk''"
    using e[symmetric] v by (rule trans)
  from ends have h: "hd (generateSlug plainEngine (js ''My Dev Talk!!'')) \<noteq> 45"
    and l: "last (generateSlug plainEngine (js ''My Dev Talk!!'')) \<noteq> 45"
    by (rule conjunct1, rule conjunct2)
  show ?thesis by (intro conjI) (rule v, rule h, rule l, rule j)
qed

section \<open>Properties of normalizeDate\<close>











lemma monthStart_values:
  "monthStart l 0 = 0" "monthStart l 1 = 31" "monthStart l 2 = 59 + l" "monthStart l 3 = 90 + l"
  "monthStart l 4 = 120 + l" "monthStart l 5 = 151 + l" "monthStart l 6 = 181 + l"
  "monthStart l 7 = 212 + l" "monthStart l 8 = 243 + l" "monthStart l 9 = 273 + l"
  "monthStart l 10 = 304 + l" "monthStart l 11 = 334 + l" "monthStart l 12 = 365 + l"
  "monthStart l (Suc 0) = 31"
  by (simp_all add: monthStart_def)












lemma month_lengths:
  "map (\<lambda>m. monthStart l m - monthStart l (m - 1)) [1, 2, 3, 4, 5, 6, 7, 8, 9, 10, 11, 12] =
     [31, 28 + l, 31, 30, 31, 30, 31, 31, 30, 31, 30, 31]"
  by (simp add: monthStart_values)























section \<open>Properties of the Event hook\<close>

lemma checkFields_find:
  "checkFields ok err d fs = map_option err (find (\<lambda>f. \<not> ok (props d f)) fs)"
  by (induction fs) auto

lemma find_filter_hd:
  "find P xs = (if filter P xs = [] then None else Some (hd (filter P xs)))"
  by (induction xs) auto

lemma eventPreSave_offending:
  assumes "offending d \<noteq> []"
  shows "eventPreSave rt d =
    (Some ((if filter (\<lambda>f. \<not> stringFieldOk (props d f)) requiredStringFields \<noteq> []
            then FieldRequired else FieldNonEmptyArray) (hd (offending d))), d)"
proof (cases "filter (\<lambda>f. \<not> stringFieldOk (props d f)) requiredStringFields = []")
  case True
  with assms have a: "filter (\<lambda>f. \<not> arrayFieldOk (props d f)) requiredArrayFields \<noteq> []"
    by (simp add: offending_def)
  show ?thesis
    unfolding eventPreSave_def checkFields_find find_filter_hd offending_def
    using True a by simp
next
  case False
  show ?thesis
    unfolding eventPreSave_def checkFields_find find_filter_hd offending_def
    using False by simp
qed

text \<open>
  Claim C5. Whenever a required text attribute is absent, not a string or empty after
  trimming, or agenda or tags is absent, not a list or an empty list, the hook fails with
  MissingField(name), where name is the first such attribute in the order in which the
  hook tests them (the text attributes, then agenda, then tags), and the document is left
  as it was. In particular a candidate with an empty tags list, on which the other tests
  pass, is rejected with MissingField("tags").
\<close>

theorem eventPreSave_missing_field:
  "(offending d \<noteq> [] \<longrightarrow>
      rejects (eventPreSave rt d) (MissingField (hd (offending d))) \<and>
      snd (eventPreSave rt d) = d \<and>
      hd (offending d) \<in> set (requiredStringFields @ requiredArrayFields)) \<and>
   ((\<forall>f \<in> set requiredStringFields. stringFieldOk (props d f)) \<and>
      arrayFieldOk (props d ''agenda'') \<and> props d ''tags'' = JArray [] \<longrightarrow>
      rejects (eventPreSave rt d) (MissingField ''tags''))"
proof (intro conjI impI)
  assume o: "offending d \<noteq> []"
  show "rejects (eventPreSave rt d) (MissingField (hd (offending d)))"
    unfolding eventPreSave_offending[OF o] by (simp add: rejects_def)
  show "snd (eventPreSave rt d) = d"
    unfolding eventPreSave_offending[OF o] by simp
  have "set (offending d) \<subseteq> set (requiredStringFields @ requiredArrayFields)"
    by (auto simp: offending_def)
  with o show "hd (offending d) \<in> set (requiredStringFields @ requiredArrayFields)"
    using hd_in_set by blast
next
  assume a: "(\<forall>f \<in> set requiredStringFields. stringFieldOk (props d f)) \<and>
      arrayFieldOk (props d ''agenda'') \<and> props d ''tags'' = JArray []"
  then have "filter (\<lambda>f. \<not> stringFieldOk (props d f)) requiredStringFields = []"
    by (simp add: filter_empty_conv)
  with a have o: "offending d = [''tags'']"
    by (simp add: offending_def requiredArrayFields_def arrayFieldOk_def)
  then have "offending d \<noteq> []" by simp
  from eventPreSave_offending[OF this] o
  show "rejects (eventPreSave rt d) (MissingField ''tags'')"
    by (simp add: rejects_def)
qed

lemmas doc_eval =
  sampleEvent_def sampleProps_def requiredStringFields_def requiredArrayFields_def
  stringFieldOk_def arrayFieldOk_def offending_def trim_def js_def isWhiteSpace_def

text \<open>The theorem at the example candidate with an empty tags list, and at one whose time
  is blank and whose tags are not a list: the time is tested first.\<close>

theorem eventPreSave_missing_field_witness:
  "offending (sampleEvent (js ''2:30 PM'') (JArray [])) = [''tags''] \<and>
   rejects (eventPreSave plainEngine (sampleEvent (js ''2:30 PM'') (JArray []))) (MissingField ''tags'') \<and>
   offending (sampleEvent (js ''   '') JOther) = [''time'', ''tags''] \<and>
   rejects (eventPreSave plainEngine (sampleEvent (js ''   '') JOther)) (MissingField ''time'')"
proof -
  have o1: "offending (sampleEvent (js ''2:30 PM'') (JArray [])) = [''tags'']"
    by (simp add: doc_eval)
  have o2: "offending (sampleEvent (js ''   '') JOther) = [''time'', ''tags'']"
    by (simp add: doc_eval)
  have s: "\<forall>f \<in> set requiredStringFields. stringFieldOk (props (sampleEvent (js ''2:30 PM'') (JArray [])) f)"
    by (simp add: doc_eval)
  have a: "arrayFieldOk (props (sampleEvent (js ''2:30 PM'') (JArray [])) ''agenda'')"
    "props (sampleEvent (js ''2:30 PM'') (JArray [])) ''tags'' = JArray []"
    by (simp_all add: doc_eval)
  from eventPreSave_missing_field[of "sampleEvent (js ''2:30 PM'') (JArray [])" plainEngine] s a
  have r1: "rejects (eventPreSave plainEngine (sampleEvent (js ''2:30 PM'') (JArray []))) (MissingField ''tags'')"
    by blast
  from eventPreSave_missing_field[of "sampleEvent (js ''   '') JOther" plainEngine] o2
  have r2: "rejects (eventPreSave plainEngine (sampleEvent (js ''   '') JOther)) (MissingField ''time'')"
    by simp
  show ?thesis by (intro conjI) (rule o1, rule r1, rule o2, rule r2)
qed


lemma eventPreSave_slug:
  "fst (eventPreSave rt d) = None \<Longrightarrow>
   props (snd (eventPreSave rt d)) ''slug'' =
     (if isModified d ''title'' then JString (generateSlug rt (asString (props d ''title'')))
      else props d ''slug'')"
  by (auto simp: eventPreSave_def assign_def Let_def split: option.splits sum.splits)

lemmas hook_eval = eventPreSave_def assign_def normalizeDate_def newDate_def DateParse_def parseDateOnly_def
  toISOString_def isoDate_def isoTime_def leap_def MakeDate_def MakeDay_def TimeClip_def YearFromTime_def YearFromDay_def DayFromYear_def
  DaysInYear_def Day_def msPerDay_def MonthFromTime_def DateFromTime_def DayWithinYear_def InLeapYear_def
  monthStart_def HourFromTime_def MinFromTime_def SecFromTime_def msFromTime_def asString_def

section \<open>Properties of two successive writes\<close>

lemma save_passed:
  assumes "save rt t = (None, t')"
  shows "validate t = []" and "fst (eventPreSave rt (toDocument t)) = None"
    and "current t' = props (snd (eventPreSave rt (toDocument t)))"
    and "stored t' = Some (current t')"
  using assms
  by (auto simp: save_def preSave_def split: list.splits prod.splits option.splits)

lemma validate_title:
  assumes "validate t = []"
  shows "\<exists>s. current t ''title'' = JString s \<and> s \<noteq> []"
proof -
  have "(''title'', StringPath True) \<in> set EventSchema" by (simp add: EventSchema_def)
  moreover from assms have "\<forall>(p, k) \<in> set EventSchema. \<not> requiredFails k (current t p)"
    by (auto simp: validate_def filter_empty_conv)
  ultimately have "\<not> requiredFails (StringPath True) (current t ''title'')" by blast
  then show ?thesis by (cases "current t ''title''") (auto simp: requiredFails_def)
qed

lemma save_slug:
  assumes "save rt t = (None, t')"
  shows "current t' ''slug'' =
     (if modified t ''title'' then JString (generateSlug rt (asString (current t ''title'')))
      else current t ''slug'')"
  using save_passed(2,3)[OF assms] eventPreSave_slug[of rt "toDocument t"]
  by (simp add: toDocument_def)

text \<open>
  Claim C7. Take two successive writes of an event that both pass, the second on the
  record the first stored, with the slug the first left. In the second write the slug is
  recomputed from the title and overwritten when the title is not the stored one any
  more, and it stays the stored slug when the title is the stored one. In the first
  write, of a new record, the slug is recomputed from the title.
\<close>

theorem save_slug_frame:
  assumes first: "save rt t0 = (None, t1)"
    and same: "stored t = stored t1" "current t ''slug'' = current t1 ''slug''"
    and second: "save rt t = (None, t2)"
  shows "(current t ''title'' \<noteq> current t1 ''title'' \<longrightarrow>
            current t2 ''slug'' = JString (generateSlug rt (asString (current t ''title'')))) \<and>
         (current t ''title'' = current t1 ''title'' \<longrightarrow>
            current t2 ''slug'' = current t1 ''slug'') \<and>
         (stored t0 = None \<longrightarrow>
            current t1 ''slug'' = JString (generateSlug rt (asString (current t0 ''title''))))"
proof (intro conjI impI)
  have st: "stored t = Some (current t1)"
    using same(1) save_passed(4)[OF first] by simp
  then have m: "modified t ''title'' \<longleftrightarrow> current t ''title'' \<noteq> current t1 ''title''"
    by (simp add: modified_def)
  {
    assume "current t ''title'' \<noteq> current t1 ''title''"
    then show "current t2 ''slug'' = JString (generateSlug rt (asString (current t ''title'')))"
      using save_slug[OF second] m by simp
  next
    assume "current t ''title'' = current t1 ''title''"
    then show "current t2 ''slug'' = current t1 ''slug''"
      using save_slug[OF second] m same(2) by simp
  next
    assume new: "stored t0 = None"
    from validate_title[OF save_passed(1)[OF first]]
    have "current t0 ''title'' \<noteq> pathDefault ''title''"
      by (auto simp: pathDefault_def EventSchema_def)
    then have "modified t0 ''title''" using new by (simp add: modified_def)
    then show "current t1 ''slug'' = JString (generateSlug rt (asString (current t0 ''title'')))"
      using save_slug[OF first] by simp
  }
qed

lemmas save_eval =
  save_def preSave_def validate_def requiredFails_def EventSchema_def toDocument_def modified_def
  pathDefault_def

lemma newTalk_saved:
  "fst (save plainEngine newTalk) = None"
  "current (snd (save plainEngine newTalk)) =
     (sampleProps (js ''2:30 PM'') (JArray [JString (js ''dev'')]))
       (''slug'' := JString (js ''my-dev-talk''), ''date'' := JString (js ''2025-01-31''),
        ''time'' := JString (js ''14:30''))"
  "stored (snd (save plainEngine newTalk)) = Some (current (snd (save plainEngine newTalk)))"
  by (simp_all add: newTalk_def save_eval hook_eval doc_eval time_eval slug_eval)


lemma storedTalk_saved:
  "fst (save plainEngine storedTalk) = None"
  "current (snd (save plainEngine storedTalk)) =
     (sampleProps (js ''14:30'') (JArray [JString (js ''dev'')]))
       (''slug'' := JString (js ''legacy''), ''date'' := JString (js ''2025-01-31''),
        ''time'' := JString (js ''14:30''))"
  "stored (snd (save plainEngine storedTalk)) = Some (current (snd (save plainEngine storedTalk)))"
  by (simp_all add: storedTalk_def save_eval hook_eval doc_eval time_eval slug_eval)

text \<open>
  The theorem at a new record, whose slug "custom" becomes "my-dev-talk", written again
  with the title "Another Talk", which gives "another-talk"; and at a stored record with
  the slug "legacy", written twice with its title untouched, which keeps "legacy".
\<close>

theorem save_slug_frame_witness:
  "current (snd (save plainEngine newTalk)) ''slug'' = JString (js ''my-dev-talk'') \<and>
   current (snd (save plainEngine
      ((snd (save plainEngine newTalk))
         \<lparr>current := (current (snd (save plainEngine newTalk)))
            (''title'' := JString (js ''Another Talk''))\<rparr>))) ''slug''
     = JString (js ''another-talk'') \<and>
   current (snd (save plainEngine
      ((snd (save plainEngine storedTalk))
         \<lparr>current := (current (snd (save plainEngine storedTalk)))
            (''description'' := JString (js ''A better talk''))\<rparr>))) ''slug''
     = JString (js ''legacy'')"
proof -
  let ?a1 = "snd (save plainEngine newTalk)"
  let ?a = "?a1\<lparr>current := (current ?a1)(''title'' := JString (js ''Another Talk''))\<rparr>"
  let ?b1 = "snd (save plainEngine storedTalk)"
  let ?b = "?b1\<lparr>current := (current ?b1)(''description'' := JString (js ''A better talk''))\<rparr>"
  have a_first: "save plainEngine newTalk = (None, ?a1)"
    using newTalk_saved(1) by (simp add: prod_eq_iff)
  have a_doc: "?a = \<lparr>current = (sampleProps (js ''2:30 PM'') (JArray [JString (js ''dev'')]))
       (''slug'' := JString (js ''my-dev-talk''), ''date'' := JString (js ''2025-01-31''),
        ''time'' := JString (js ''14:30''), ''title'' := JString (js ''Another Talk'')),
      stored = Some ((sampleProps (js ''2:30 PM'') (JArray [JString (js ''dev'')]))
       (''slug'' := JString (js ''my-dev-talk''), ''date'' := JString (js ''2025-01-31''),
        ''time'' := JString (js ''14:30'')))\<rparr>"
    by (rule TrackedDocument.equality) (simp_all add: newTalk_saved(2,3))
  have "fst (save plainEngine ?a) = None"
    unfolding a_doc by (simp add: save_eval hook_eval doc_eval time_eval slug_eval)
  then have a_second: "save plainEngine ?a = (None, snd (save plainEngine ?a))"
    by (simp add: prod_eq_iff)
  have a_title: "current ?a ''title'' \<noteq> current ?a1 ''title''"
    by (simp add: newTalk_saved(2) sampleProps_def js_def)
  have a_slug: "generateSlug plainEngine (asString (current ?a ''title'')) = js ''another-talk''"
    by (simp add: asString_def slug_eval)
  have a_new: "generateSlug plainEngine (asString (current newTalk ''title'')) = js ''my-dev-talk''"
    by (simp add: newTalk_def sampleProps_def asString_def slug_eval)
  note a = save_slug_frame[OF a_first _ _ a_second]
  have 1: "current ?a1 ''slug'' = JString (js ''my-dev-talk'')"
    using a a_new by (simp add: newTalk_def)
  have 2: "current (snd (save plainEngine ?a)) ''slug'' = JString (js ''another-talk'')"
    using a a_title a_slug by simp
  have b_first: "save plainEngine storedTalk = (None, ?b1)"
    using storedTalk_saved(1) by (simp add: prod_eq_iff)
  have b_doc: "?b = \<lparr>current = (sampleProps (js ''14:30'') (JArray [JString (js ''dev'')]))
       (''slug'' := JString (js ''legacy''), ''date'' := JString (js ''2025-01-31''),
        ''time'' := JString (js ''14:30''), ''description'' := JString (js ''A better talk'')),
      stored = Some ((sampleProps (js ''14:30'') (JArray [JString (js ''dev'')]))
       (''slug'' := JString (js ''legacy''), ''date'' := JString (js ''2025-01-31''),
        ''time'' := JString (js ''14:30'')))\<rparr>"
    by (rule TrackedDocument.equality) (simp_all add: storedTalk_saved(2,3))
  have "fst (save plainEngine ?b) = None"
    unfolding b_doc by (simp add: save_eval hook_eval doc_eval time_eval slug_eval)
  then have b_second: "save plainEngine ?b = (None, snd (save plainEngine ?b))"
    by (simp add: prod_eq_iff)
  have b_title: "current ?b ''title'' = current ?b1 ''title''" by simp
  have b_stored: "current ?b1 ''slug'' = JString (js ''legacy'')"
    by (simp add: storedTalk_saved(2))
  note b = save_slug_frame[OF b_first _ _ b_second]
  have 3: "current (snd (save plainEngine ?b)) ''slug'' = JString (js ''legacy'')"
    using b b_title b_stored by simp
  show ?thesis by (intro conjI) (rule 1, rule 2, rule 3)
qed

section \<open>Properties of the Booking hook\<close>

lemma at_not_emailChar: "\<not> isEmailChar 64"
  by (simp add: isEmailChar_def)

lemma dot_emailChar: "isEmailChar 46"
  by (simp add: isEmailChar_def isWhiteSpace_def)

lemma emailRegexTest_intro:
  assumes s: "s = l @ js ''@'' @ d1 @ js ''.'' @ d2"
    and ne: "l \<noteq> []" "d1 \<noteq> []" "d2 \<noteq> []"
    and cls: "list_all isEmailChar (l @ d1 @ d2)"
  shows "emailRegexTest s"
proof -
  have s': "s = l @ 64 # (d1 @ 46 # d2)" using s by (simp add: js_def)
  have l: "\<forall>x \<in> set l. isEmailChar x" using cls by (simp add: list_all_iff)
  have tw: "takeWhile isEmailChar s = l"
    unfolding s' using l at_not_emailChar by (simp add: takeWhile_tail)
  have dw: "dropWhile isEmailChar s = 64 # (d1 @ 46 # d2)"
    unfolding s' using l at_not_emailChar by (simp add: dropWhile_append3)
  obtain a d1' where d1: "d1 = a # d1'" using ne(2) by (cases d1) auto
  have bl: "butlast (tl (d1 @ 46 # d2)) = d1' @ 46 # butlast d2"
    using ne(3) d1 by (simp add: butlast_append)
  have "list_all isEmailChar (d1 @ 46 # d2)"
    using cls dot_emailChar by (simp add: list_all_iff)
  then show ?thesis
    unfolding emailRegexTest_def tw dw using ne(1) bl by simp
qed

lemma emailRegexTest_elim:
  assumes "emailRegexTest s"
  shows "\<exists>l d1 d2. s = l @ js ''@'' @ d1 @ js ''.'' @ d2 \<and> l \<noteq> [] \<and> d1 \<noteq> [] \<and> d2 \<noteq> [] \<and>
           list_all isEmailChar (l @ d1 @ d2)"
proof -
  let ?l = "takeWhile isEmailChar s"
  from assms obtain dm where dw: "dropWhile isEmailChar s = 64 # dm"
    and l: "?l \<noteq> []" and dm: "list_all isEmailChar dm" and dot: "46 \<in> set (butlast (tl dm))"
    by (auto simp: emailRegexTest_def split: list.splits)
  have s: "s = ?l @ 64 # dm" using dw takeWhile_dropWhile_id[of isEmailChar s] by simp
  from dot obtain a b where ab: "butlast (tl dm) = a @ 46 # b" by (auto simp: in_set_conv_decomp)
  then have tne: "tl dm \<noteq> []" by auto
  then have dne: "dm \<noteq> []" by auto
  have "tl dm = butlast (tl dm) @ [last (tl dm)]" using tne by simp
  then have t: "tl dm = a @ 46 # b @ [last (tl dm)]" using ab by simp
  have "dm = hd dm # tl dm" using dne by simp
  then have d: "dm = (hd dm # a) @ 46 # (b @ [last (tl dm)])" using t by simp
  let ?d1 = "hd dm # a" and ?d2 = "b @ [last (tl dm)]"
  have "s = ?l @ js ''@'' @ ?d1 @ js ''.'' @ ?d2" using s d by (simp add: js_def)
  moreover have "list_all isEmailChar ?l" by (auto simp: list_all_iff dest: set_takeWhileD)
  moreover have "list_all isEmailChar (?d1 @ ?d2)"
  proof -
    have "set (?d1 @ ?d2) \<subseteq> set dm" by (subst (3) d) auto
    then show ?thesis using dm by (auto simp: list_all_iff)
  qed
  ultimately show ?thesis using l by (intro exI[of _ ?l] exI[of _ ?d1] exI[of _ ?d2]) simp
qed

lemma emailRegexTest_iff:
  "emailRegexTest s \<longleftrightarrow>
     (\<exists>l d1 d2. s = l @ js ''@'' @ d1 @ js ''.'' @ d2 \<and> l \<noteq> [] \<and> d1 \<noteq> [] \<and> d2 \<noteq> [] \<and>
        list_all isEmailChar (l @ d1 @ d2))"
  using emailRegexTest_intro emailRegexTest_elim by blast

text \<open>
  Claim C6. The hook fails with InvalidEmail for every email that is not of the form
  local part, \<open>@\<close>, domain with a dot (each part not empty, no white space and no further
  \<open>@\<close>), such as "not-an-email", and then sends no query to the Record Store: the email is
  checked first. For every email of that form it queries the store for the event once,
  and fails with DanglingReference when there is no such event.
\<close>

theorem bookingPreSave_checks:
  "((\<nexists>l d1 d2. email b = l @ js ''@'' @ d1 @ js ''.'' @ d2 \<and> l \<noteq> [] \<and> d1 \<noteq> [] \<and> d2 \<noteq> [] \<and>
        list_all isEmailChar (l @ d1 @ d2)) \<longrightarrow>
      rejects (bookingPreSave st b) InvalidEmail \<and> snd (bookingPreSave st b) = []) \<and>
   ((\<exists>l d1 d2. email b = l @ js ''@'' @ d1 @ js ''.'' @ d2 \<and> l \<noteq> [] \<and> d1 \<noteq> [] \<and> d2 \<noteq> [] \<and>
        list_all isEmailChar (l @ d1 @ d2)) \<and> findById st (eventId b) = None \<longrightarrow>
      rejects (bookingPreSave st b) DanglingReference \<and> snd (bookingPreSave st b) = [eventId b]) \<and>
   (email b = js ''not-an-email'' \<longrightarrow> rejects (bookingPreSave st b) InvalidEmail)"
proof (intro conjI impI)
  assume "\<nexists>l d1 d2. email b = l @ js ''@'' @ d1 @ js ''.'' @ d2 \<and> l \<noteq> [] \<and> d1 \<noteq> [] \<and> d2 \<noteq> [] \<and>
        list_all isEmailChar (l @ d1 @ d2)"
  then have n: "\<not> emailRegexTest (email b)" by (simp add: emailRegexTest_iff)
  then show "rejects (bookingPreSave st b) InvalidEmail" "snd (bookingPreSave st b) = []"
    by (simp_all add: bookingPreSave_def rejects_def)
next
  assume "(\<exists>l d1 d2. email b = l @ js ''@'' @ d1 @ js ''.'' @ d2 \<and> l \<noteq> [] \<and> d1 \<noteq> [] \<and> d2 \<noteq> [] \<and>
        list_all isEmailChar (l @ d1 @ d2)) \<and> findById st (eventId b) = None"
  then have "emailRegexTest (email b)" "findById st (eventId b) = None"
    by (simp_all add: emailRegexTest_iff)
  then show "rejects (bookingPreSave st b) DanglingReference" "snd (bookingPreSave st b) = [eventId b]"
    by (simp_all add: bookingPreSave_def rejects_def)
next
  assume "email b = js ''not-an-email''"
  then have "\<not> emailRegexTest (email b)"
    by (simp add: emailRegexTest_def js_def isEmailChar_def isWhiteSpace_def)
  then show "rejects (bookingPreSave st b) InvalidEmail"
    by (simp add: bookingPreSave_def rejects_def)
qed

text \<open>The theorem at the emails "a@b.io" and "not-an-email", on an empty store.\<close>

theorem bookingPreSave_checks_witness:
  "bookingPreSave \<lparr>events = [], bookings = []\<rparr> \<lparr>eventId = 7, email = js ''a@b.io''\<rparr>
     = (Some ReferencedEventMissing, [7]) \<and>
   bookingPreSave \<lparr>events = [], bookings = []\<rparr> \<lparr>eventId = 7, email = js ''not-an-email''\<rparr>
     = (Some InvalidEmailAddress, [])"
proof -
  let ?st = "\<lparr>events = [], bookings = []\<rparr>"
  let ?b = "\<lparr>eventId = 7, email = js ''a@b.io''\<rparr>"
  let ?c = "\<lparr>eventId = 7, email = js ''not-an-email''\<rparr>"
  have wf: "\<exists>l d1 d2. email ?b = l @ js ''@'' @ d1 @ js ''.'' @ d2 \<and> l \<noteq> [] \<and> d1 \<noteq> [] \<and> d2 \<noteq> [] \<and>
        list_all isEmailChar (l @ d1 @ d2)"
    by (intro exI[of _ "js ''a''"] exI[of _ "js ''b''"] exI[of _ "js ''io''"])
       (simp add: js_def isEmailChar_def isWhiteSpace_def)
  have nf: "findById ?st (eventId ?b) = None" by (simp add: findById_def)
  from bookingPreSave_checks[of ?b ?st] wf nf
  have "rejects (bookingPreSave ?st ?b) DanglingReference \<and> snd (bookingPreSave ?st ?b) = [eventId ?b]"
    by blast
  then have 1: "bookingPreSave ?st ?b = (Some ReferencedEventMissing, [7])"
    by (cases "bookingPreSave ?st ?b")
       (auto simp: rejects_def bookingPreSave_def split: option.splits if_splits)
  have 2: "bookingPreSave ?st ?c = (Some InvalidEmailAddress, [])"
    by (simp add: bookingPreSave_def emailRegexTest_def js_def isEmailChar_def isWhiteSpace_def)
  show ?thesis by (intro conjI) (rule 1, rule 2)
qed

section \<open>Properties of the create route\<close>

lemmas route_eval =
  POST_def EventCreate_def newDocument_def castPath_def fromEntries_def sampleForm_def

lemma POST_failure_no_write:
  "fst (POST rt st i form) = CreationFailed e \<Longrightarrow> snd (POST rt st i form) = st"
  by (auto simp: POST_def EventCreate_def split: prod.splits option.splits sum.splits if_splits)

text \<open>
  Claim C9. No invalid record should ever be persisted. The code persists one: a form
  with every field in order, a slug, and the time "13:00 PM" passes the validation and
  the hook, and the event is created and stored with the time "25:00", which is no
  24-hour clock string.
\<close>

theorem POST_persists_invalid_time:
  "(case fst (POST rt \<lparr>events = [], bookings = []\<rparr> 1
              (sampleForm ''my-dev-talk'' ''My Dev Talk!!'' ''13:00 PM'')) of
      Created createdEvent \<Rightarrow> createdEvent ''time'' = JString (js ''25:00'')
    | CreationFailed e \<Rightarrow> False) \<and>
   map (\<lambda>(j, e). e ''time'')
     (events (snd (POST rt \<lparr>events = [], bookings = []\<rparr> 1
              (sampleForm ''my-dev-talk'' ''My Dev Talk!!'' ''13:00 PM''))))
     = [JString (js ''25:00'')] \<and>
   \<not> isClock24 (js ''25:00'')"
  by (simp add: route_eval save_eval hook_eval doc_eval time_eval slug_eval isClock24_def)

section \<open>Normalizing a normalized time again\<close>

text \<open>
  Claim C10. The Time Normalizer is not idempotent on the inputs it accepts: it accepts
  "13:00 PM" and returns "25:00", which it rejects with InvalidTime. An event with that
  time passes the hook once and is left with the time "25:00"; the hook run again on the
  document it left fails with InvalidTime.
\<close>

theorem normalizeTime_not_idempotent:
  "normalizeTime rt (js ''13:00 PM'') = Inr (js ''25:00'') \<and>
   failsWith (normalizeTime rt (js ''25:00'')) InvalidTime \<and>
   fst (eventPreSave rt (sampleEvent (js ''13:00 PM'') (JArray [JString (js ''dev'')]))) = None \<and>
   props (snd (eventPreSave rt (sampleEvent (js ''13:00 PM'') (JArray [JString (js ''dev'')]))))
      ''time'' = JString (js ''25:00'') \<and>
   rejects (eventPreSave rt
      (snd (eventPreSave rt (sampleEvent (js ''13:00 PM'') (JArray [JString (js ''dev'')])))))
      InvalidTime"
proof -
  let ?d = "sampleEvent (js ''13:00 PM'') (JArray [JString (js ''dev'')])"
  have n1: "normalizeTime rt (js ''13:00 PM'') = Inr (js ''25:00'')"
    by (simp add: time_eval)
  have n2: "failsWith (normalizeTime rt (js ''25:00'')) InvalidTime"
    by (simp add: time_eval)
  have d': "snd (eventPreSave rt ?d) =
      \<lparr>props = (sampleProps (js ''13:00 PM'') (JArray [JString (js ''dev'')]))
         (''slug'' := JString (js ''my-dev-talk''), ''date'' := JString (js ''2025-01-31''),
          ''time'' := JString (js ''25:00'')), isModified = (\<lambda>p. True)\<rparr>"
    by (rule EventDocument.equality) (simp_all add: hook_eval doc_eval time_eval slug_eval)
  have first: "fst (eventPreSave rt ?d) = None"
    by (simp add: hook_eval doc_eval time_eval)
  have stored: "props (snd (eventPreSave rt ?d)) ''time'' = JString (js ''25:00'')"
    unfolding d' by simp
  have again: "rejects (eventPreSave rt (snd (eventPreSave rt ?d))) InvalidTime"
    unfolding d' by (simp add: rejects_def hook_eval doc_eval time_eval)
  show ?thesis by (intro conjI) (rule n1, rule n2, rule first, rule stored, rule again)
qed

end
